theory Spec2Isabelle
  imports Main "HOL-Library.Word" "HOL-Library.Log_Nat"
begin

section \<open>Data model of Metropolis.h\<close>

text \<open>
  \<^verbatim>\<open>uintmax_t\<close> is a 64-bit unsigned integer: \<open>+\<close> and \<open>-\<close> wrap around.
  \<^verbatim>\<open>move_tuple\<close> is the \<^verbatim>\<open>std::tuple\<close> of five such counters, in the order
  (2,3), (3,2), (2,6), (6,2), (4,4).
\<close>

type_synonym uintmax_t = "64 word"

type_synonym move_tuple = "uintmax_t \<times> uintmax_t \<times> uintmax_t \<times> uintmax_t \<times> uintmax_t"

text \<open>
  A \<^verbatim>\<open>Gmpzf\<close> is an exact number \<open>m * 2 ^ e\<close>; it is modelled by the rational it denotes.
  The \<^verbatim>\<open>long double\<close> couplings are only stored and handed to \<^verbatim>\<open>S3_bulk_action\<close>.
\<close>

type_synonym Gmpzf = rat

type_synonym long_double = rat

type_synonym Cell_handle = nat

type_synonym Edge_tuple = nat

datatype move_type = TWO_THREE | THREE_TWO | TWO_SIX | SIX_TWO | FOUR_FOUR

text \<open>\<^verbatim>\<open>std::get<i>\<close> on a \<^verbatim>\<open>move_tuple\<close>, and \<^verbatim>\<open>++std::get<i>(t)\<close>.\<close>

fun get_0 :: "move_tuple \<Rightarrow> uintmax_t" where
  "get_0 (a, b, c, d, e) = a"

fun get_1 :: "move_tuple \<Rightarrow> uintmax_t" where
  "get_1 (a, b, c, d, e) = b"

fun get_2 :: "move_tuple \<Rightarrow> uintmax_t" where
  "get_2 (a, b, c, d, e) = c"

fun get_3 :: "move_tuple \<Rightarrow> uintmax_t" where
  "get_3 (a, b, c, d, e) = d"

fun get_4 :: "move_tuple \<Rightarrow> uintmax_t" where
  "get_4 (a, b, c, d, e) = e"

fun incr_0 :: "move_tuple \<Rightarrow> move_tuple" where
  "incr_0 (a, b, c, d, e) = (a + 1, b, c, d, e)"

fun incr_1 :: "move_tuple \<Rightarrow> move_tuple" where
  "incr_1 (a, b, c, d, e) = (a, b + 1, c, d, e)"

fun incr_2 :: "move_tuple \<Rightarrow> move_tuple" where
  "incr_2 (a, b, c, d, e) = (a, b, c + 1, d, e)"

fun incr_3 :: "move_tuple \<Rightarrow> move_tuple" where
  "incr_3 (a, b, c, d, e) = (a, b, c, d + 1, e)"

fun incr_4 :: "move_tuple \<Rightarrow> move_tuple" where
  "incr_4 (a, b, c, d, e) = (a, b, c, d, e + 1)"

text \<open>\<^verbatim>\<open>std::get<static_cast<size_t>(move)>\<close>: the counter of a move kind.\<close>

fun get_move :: "move_type \<Rightarrow> move_tuple \<Rightarrow> uintmax_t" where
  "get_move TWO_THREE t = get_0 t"
| "get_move THREE_TWO t = get_1 t"
| "get_move TWO_SIX t = get_2 t"
| "get_move SIX_TWO t = get_3 t"
| "get_move FOUR_FOUR t = get_4 t"

text \<open>\<^verbatim>\<open>++std::get<static_cast<size_t>(move)>(t)\<close>: one more move of a kind.\<close>

fun incr_move :: "move_type \<Rightarrow> move_tuple \<Rightarrow> move_tuple" where
  "incr_move TWO_THREE t = incr_0 t"
| "incr_move THREE_TWO t = incr_1 t"
| "incr_move TWO_SIX t = incr_2 t"
| "incr_move SIX_TWO t = incr_3 t"
| "incr_move FOUR_FOUR t = incr_4 t"

text \<open>
  The private members of \<^verbatim>\<open>class Metropolis\<close>. The triangulation behind
  \<^verbatim>\<open>universe_ptr_\<close> is opaque here: its type is the parameter \<open>'u\<close>.
\<close>

record 'u Metropolis =
  universe_ptr :: 'u
  Alpha :: long_double
  K :: long_double
  Lambda :: long_double
  N1_TL :: uintmax_t
  N3_31 :: uintmax_t
  N3_22 :: uintmax_t
  passes :: "32 word"
  output_every_n_passes :: "32 word"
  attempted_moves :: move_tuple
  successful_moves :: move_tuple
  simplex_types :: "Cell_handle list \<times> Cell_handle list \<times> Cell_handle list"
  edge_types :: "Edge_tuple list \<times> 32 word"

text \<open>
  The constructor stores the five job parameters; every counter starts at 0 and the
  snapshots are empty. \<open>universe\<close> is the default-constructed triangulation member.
\<close>

definition Metropolis_ctor ::
  "'u \<Rightarrow> long_double \<Rightarrow> long_double \<Rightarrow> long_double \<Rightarrow> 32 word \<Rightarrow> 32 word \<Rightarrow> 'u Metropolis" where
  "Metropolis_ctor universe Alpha' K' Lambda' passes' output_every_n_passes' =
     \<lparr> universe_ptr = universe, Alpha = Alpha', K = K', Lambda = Lambda',
       N1_TL = 0, N3_31 = 0, N3_22 = 0,
       passes = passes', output_every_n_passes = output_every_n_passes',
       attempted_moves = (0, 0, 0, 0, 0), successful_moves = (0, 0, 0, 0, 0),
       simplex_types = ([], [], []), edge_types = ([], 0) \<rparr>"

subsection \<open>Read accessors\<close>

definition TotalMoves :: "'u Metropolis \<Rightarrow> uintmax_t" where
  "TotalMoves m = get_0 (attempted_moves m) + get_1 (attempted_moves m) +
     get_2 (attempted_moves m) + get_3 (attempted_moves m) + get_4 (attempted_moves m)"

definition TwoThreeMoves :: "'u Metropolis \<Rightarrow> uintmax_t" where
  "TwoThreeMoves m = get_0 (attempted_moves m)"

definition SuccessfulTwoThreeMoves :: "'u Metropolis \<Rightarrow> uintmax_t" where
  "SuccessfulTwoThreeMoves m = get_0 (successful_moves m)"

definition ThreeTwoMoves :: "'u Metropolis \<Rightarrow> uintmax_t" where
  "ThreeTwoMoves m = get_1 (attempted_moves m)"

definition SuccessfulThreeTwoMoves :: "'u Metropolis \<Rightarrow> uintmax_t" where
  "SuccessfulThreeTwoMoves m = get_1 (successful_moves m)"

definition TwoSixMoves :: "'u Metropolis \<Rightarrow> uintmax_t" where
  "TwoSixMoves m = get_2 (attempted_moves m)"

definition SuccessfulTwoSixMoves :: "'u Metropolis \<Rightarrow> uintmax_t" where
  "SuccessfulTwoSixMoves m = get_2 (successful_moves m)"

definition SixTwoMoves :: "'u Metropolis \<Rightarrow> uintmax_t" where
  "SixTwoMoves m = get_3 (attempted_moves m)"

definition SuccessfulSixTwoMoves :: "'u Metropolis \<Rightarrow> uintmax_t" where
  "SuccessfulSixTwoMoves m = get_3 (attempted_moves m)"

definition FourFourMoves :: "'u Metropolis \<Rightarrow> uintmax_t" where
  "FourFourMoves m = get_4 (attempted_moves m)"

definition SuccessfulFourFourMoves :: "'u Metropolis \<Rightarrow> uintmax_t" where
  "SuccessfulFourFourMoves m = get_4 (attempted_moves m)"

definition TimelikeEdges :: "'u Metropolis \<Rightarrow> uintmax_t" where
  "TimelikeEdges m = N1_TL m"

definition ThreeOneSimplices :: "'u Metropolis \<Rightarrow> uintmax_t" where
  "ThreeOneSimplices m = N3_31 m"

definition TwoTwoSimplices :: "'u Metropolis \<Rightarrow> uintmax_t" where
  "TwoTwoSimplices m = N3_22 m"

definition CurrentTotalSimplices :: "'u Metropolis \<Rightarrow> uintmax_t" where
  "CurrentTotalSimplices m = N3_31 m + N3_22 m"

section \<open>External collaborators\<close>

text \<open>
  Metropolis.h calls into headers that are not part of the sources at hand
  (S3Action.h, S3ErgodicMoves.h, the random utilities, MPFR). What they compute is a
  parameter of the model:
  \<^item> \<open>PRECISION\<close>: the \<^verbatim>\<open>extern const unsigned PRECISION\<close>, the MPFR working precision in bits;
  \<^item> \<open>S3_bulk_action\<close>: the action evaluator;
  \<^item> \<open>exp_RNDD\<close>: the chain \<^verbatim>\<open>Gmpzf_to_double\<close>, \<^verbatim>\<open>mpfr_init_set_d\<close>, \<^verbatim>\<open>mpfr_exp\<close>,
    \<^verbatim>\<open>mpfr_get_d\<close> applied to a negative exponent;
  \<^item> \<open>classify_simplices\<close>, \<open>classify_edges\<close>: the move classifier;
  \<^item> \<open>flip_23\<close>, \<open>flip_32\<close>, \<open>flip_26\<close>: what the three move executors do to the triangulation;
  \<^item> \<open>generate_random_unsigned\<close>: the result of the call \<^verbatim>\<open>generate_random_unsigned(0, 2)\<close>
    in iteration \<open>i\<close> of the main loop;
  \<^item> \<open>generate_probability\<close>: the value of \<^verbatim>\<open>trial\<close> drawn in iteration \<open>i\<close>.
\<close>

record 'u collaborators =
  PRECISION :: nat
  S3_bulk_action ::
    "uintmax_t \<Rightarrow> uintmax_t \<Rightarrow> uintmax_t \<Rightarrow> long_double \<Rightarrow> long_double \<Rightarrow> long_double \<Rightarrow> Gmpzf"
  exp_RNDD :: "Gmpzf \<Rightarrow> Gmpzf"
  classify_simplices :: "'u \<Rightarrow> Cell_handle list \<times> Cell_handle list \<times> Cell_handle list"
  classify_edges :: "'u \<Rightarrow> Edge_tuple list \<times> 32 word"
  flip_23 :: "'u \<Rightarrow> Cell_handle list \<times> Cell_handle list \<times> Cell_handle list \<Rightarrow> 'u"
  flip_32 :: "'u \<Rightarrow> Edge_tuple list \<times> 32 word \<Rightarrow> 'u"
  flip_26 :: "'u \<Rightarrow> Cell_handle list \<times> Cell_handle list \<times> Cell_handle list \<Rightarrow> 'u"
  generate_random_unsigned :: "nat \<Rightarrow> nat"
  generate_probability :: "nat \<Rightarrow> rat"

text \<open>
  Modelled from the spec: S3ErgodicMoves.h is missing. The Move Executor
  \<^verbatim>\<open>make_23_move(universe_ptr, simplex_types, attempted_moves)\<close> hands back the mutated
  triangulation and increments the shared attempted counter of its kind exactly once
  per invocation.
\<close>

definition make_23_move ::
  "'u collaborators \<Rightarrow> 'u \<Rightarrow> Cell_handle list \<times> Cell_handle list \<times> Cell_handle list
     \<Rightarrow> move_tuple \<Rightarrow> 'u \<times> move_tuple" where
  "make_23_move env universe simplices attempted =
     (flip_23 env universe simplices, incr_0 attempted)"

text \<open>
  Modelled from the spec: S3ErgodicMoves.h is missing. \<^verbatim>\<open>make_32_move\<close> works on the
  movable timelike edges and increments the attempted (3,2) counter exactly once.
\<close>

definition make_32_move ::
  "'u collaborators \<Rightarrow> 'u \<Rightarrow> Edge_tuple list \<times> 32 word \<Rightarrow> move_tuple \<Rightarrow> 'u \<times> move_tuple" where
  "make_32_move env universe edges attempted =
     (flip_32 env universe edges, incr_1 attempted)"

text \<open>
  Modelled from the spec: S3ErgodicMoves.h is missing. \<^verbatim>\<open>make_26_move\<close> increments the
  attempted (2,6) counter exactly once.
\<close>

definition make_26_move ::
  "'u collaborators \<Rightarrow> 'u \<Rightarrow> Cell_handle list \<times> Cell_handle list \<times> Cell_handle list
     \<Rightarrow> move_tuple \<Rightarrow> 'u \<times> move_tuple" where
  "make_26_move env universe simplices attempted =
     (flip_26 env universe simplices, incr_2 attempted)"

section \<open>Rounding towards minus infinity\<close>

text \<open>
  \<^verbatim>\<open>MPFR_RNDD\<close> to \<open>p\<close> significant bits: a non-zero \<open>x\<close> with
  \<open>2 powi e \<le> \<bar>x\<bar> < 2 powi (e + 1)\<close> becomes the largest multiple of
  \<open>2 powi (e + 1 - p)\<close> that does not exceed it. \<open>ilog2\<close> computes that exponent \<open>e\<close>
  from the bit lengths of numerator and denominator. A double has 53 significant bits.
\<close>

definition ilog2 :: "rat \<Rightarrow> int" where
  "ilog2 x = (case quotient_of x of (a, b) \<Rightarrow>
     (let d = bitlen a - bitlen b in if 2 powi d \<le> x then d else d - 1))"

definition round_down :: "nat \<Rightarrow> rat \<Rightarrow> rat" where
  "round_down p x = (if x = 0 then 0 else
     (let e = ilog2 \<bar>x\<bar> in of_int \<lfloor>x * 2 powi (int p - 1 - e)\<rfloor> * 2 powi (e + 1 - int p)))"

section \<open>The acceptance engine\<close>

text \<open>
  \<^verbatim>\<open>CalculateA1\<close>. \<^verbatim>\<open>auto this_move = 5\<close> makes \<open>this_move\<close> an \<^verbatim>\<open>int\<close>: the 64-bit
  counter is narrowed to 32 bits, and \<^verbatim>\<open>mpfr_init_set_ui\<close> takes it as an
  \<^verbatim>\<open>unsigned long\<close>, which sign-extends it. \<open>r1\<close>, \<open>r2\<close> and the quotient \<open>a1\<close> are
  rounded down to \<open>PRECISION\<close> bits, \<^verbatim>\<open>mpfr_get_d\<close> rounds \<open>a1\<close> down to a double. With
  \<open>total_moves = 0\<close> the division gives NaN or infinity, which no \<^verbatim>\<open>Gmpzf\<close> holds: the
  result is \<open>None\<close>.
\<close>

definition CalculateA1 :: "'u collaborators \<Rightarrow> 'u Metropolis \<Rightarrow> move_type \<Rightarrow> Gmpzf option" where
  "CalculateA1 env m move =
     (let total_moves = TotalMoves m;
          this_move = (case move of
              TWO_THREE \<Rightarrow> (ucast (get_0 (attempted_moves m)) :: 32 word)
            | THREE_TWO \<Rightarrow> ucast (get_1 (attempted_moves m))
            | TWO_SIX \<Rightarrow> ucast (get_2 (attempted_moves m))
            | SIX_TWO \<Rightarrow> ucast (get_3 (attempted_moves m))
            | FOUR_FOUR \<Rightarrow> ucast (get_4 (attempted_moves m)));
          r1 = round_down (PRECISION env) (of_nat (unat (scast this_move :: 64 word)));
          r2 = round_down (PRECISION env) (of_nat (unat total_moves))
      in if total_moves = 0 then None
         else Some (round_down 53 (round_down (PRECISION env) (r1 / r2))))"

text \<open>
  \<^verbatim>\<open>CalculateA2\<close>, together with the list of count triples it hands to
  \<^verbatim>\<open>S3_bulk_action\<close>, in call order. \<open>traced_action\<close> is one such call.
\<close>

type_synonym action_call = "uintmax_t \<times> uintmax_t \<times> uintmax_t"

definition traced_action ::
  "'u collaborators \<Rightarrow> 'u Metropolis \<Rightarrow> action_call \<Rightarrow> Gmpzf \<times> action_call list" where
  "traced_action env m c = (case c of (n1, n31, n22) \<Rightarrow>
     (S3_bulk_action env n1 n31 n22 (Alpha m) (K m) (Lambda m), [c]))"

definition A2_of_exponent :: "'u collaborators \<Rightarrow> Gmpzf \<Rightarrow> Gmpzf" where
  "A2_of_exponent env exponent = (if exponent \<ge> 0 then 1 else exp_RNDD env exponent)"

definition CalculateA2_traced ::
  "'u collaborators \<Rightarrow> 'u Metropolis \<Rightarrow> move_type \<Rightarrow> Gmpzf \<times> action_call list" where
  "CalculateA2_traced env m move =
     (case traced_action env m (N1_TL m, N3_31 m, N3_22 m) of (currentS3Action, calls) \<Rightarrow>
       (case move of
          TWO_THREE \<Rightarrow>
            (case traced_action env m (N1_TL m - 1, N3_31 m, N3_22 m + 1) of
               (newS3Action, calls') \<Rightarrow>
                 (A2_of_exponent env (newS3Action - currentS3Action), calls @ calls'))
        | THREE_TWO \<Rightarrow>
            (case traced_action env m (N1_TL m + 1, N3_31 m, N3_22 m - 1) of
               (newS3Action, calls') \<Rightarrow>
                 (A2_of_exponent env (newS3Action - currentS3Action), calls @ calls'))
        | TWO_SIX \<Rightarrow>
            (case traced_action env m (N1_TL m + 2, N3_31 m + 4, N3_22 m) of
               (newS3Action, calls') \<Rightarrow>
                 (A2_of_exponent env (newS3Action - currentS3Action), calls @ calls'))
        | SIX_TWO \<Rightarrow>
            (case traced_action env m (N1_TL m - 2, N3_31 m, N3_22 m - 4) of
               (newS3Action, calls') \<Rightarrow>
                 (A2_of_exponent env (newS3Action - currentS3Action), calls @ calls'))
        | FOUR_FOUR \<Rightarrow> (1, calls)))"

definition CalculateA2 :: "'u collaborators \<Rightarrow> 'u Metropolis \<Rightarrow> move_type \<Rightarrow> Gmpzf" where
  "CalculateA2 env m move = fst (CalculateA2_traced env m move)"

text \<open>
  \<^verbatim>\<open>attempt_move\<close>, with the drawn \<open>trial\<close> as an argument. \<open>None\<close>: \<open>a1\<close> does not exist.
\<close>

definition attempt_move ::
  "'u collaborators \<Rightarrow> move_type \<Rightarrow> rat \<Rightarrow> 'u Metropolis \<Rightarrow> 'u Metropolis option" where
  "attempt_move env move trial m =
     (case CalculateA1 env m move of
        None \<Rightarrow> None
      | Some a1 \<Rightarrow>
         (let a2 = CalculateA2 env m move in
          if trial \<le> a1 * a2 then
            (case move of
               TWO_THREE \<Rightarrow>
                 (case make_23_move env (universe_ptr m) (simplex_types m) (attempted_moves m) of
                    (universe, attempted) \<Rightarrow>
                      Some (m\<lparr>universe_ptr := universe, attempted_moves := attempted,
                              N3_22 := N3_22 m + 1, N1_TL := N1_TL m + 1,
                              successful_moves := incr_0 (successful_moves m)\<rparr>))
             | THREE_TWO \<Rightarrow>
                 (case make_32_move env (universe_ptr m) (edge_types m) (attempted_moves m) of
                    (universe, attempted) \<Rightarrow>
                      Some (m\<lparr>universe_ptr := universe, attempted_moves := attempted,
                              N3_22 := N3_22 m - 1, N1_TL := N1_TL m - 1,
                              successful_moves := incr_1 (successful_moves m)\<rparr>))
             | TWO_SIX \<Rightarrow>
                 (case make_26_move env (universe_ptr m) (simplex_types m) (attempted_moves m) of
                    (universe, attempted) \<Rightarrow>
                      Some (m\<lparr>universe_ptr := universe, attempted_moves := attempted,
                              N3_31 := N3_31 m + 4, N1_TL := N1_TL m + 2,
                              successful_moves := incr_2 (successful_moves m)\<rparr>))
             | SIX_TWO \<Rightarrow> Some m
             | FOUR_FOUR \<Rightarrow> Some m)
          else
            (case move of
               TWO_THREE \<Rightarrow> Some (m\<lparr>attempted_moves := incr_0 (attempted_moves m)\<rparr>)
             | THREE_TWO \<Rightarrow> Some (m\<lparr>attempted_moves := incr_1 (attempted_moves m)\<rparr>)
             | TWO_SIX \<Rightarrow> Some (m\<lparr>attempted_moves := incr_2 (attempted_moves m)\<rparr>)
             | SIX_TWO \<Rightarrow> Some (m\<lparr>attempted_moves := incr_3 (attempted_moves m)\<rparr>)
             | FOUR_FOUR \<Rightarrow> Some (m\<lparr>attempted_moves := incr_4 (attempted_moves m)\<rparr>))))"

section \<open>The pass driver\<close>

text \<open>
  The part of \<^verbatim>\<open>operator()\<close> before the loop: take the triangulation, classify, set the
  three counts from the sizes of the snapshot, then make one move of each of the kinds
  (2,3), (3,2), (2,6) and book it as successful.
\<close>

definition seed :: "'u collaborators \<Rightarrow> 'u \<Rightarrow> 'u Metropolis \<Rightarrow> 'u Metropolis" where
  "seed env universe m0 =
     (let m = m0\<lparr>universe_ptr := universe\<rparr>;
          m = m\<lparr>simplex_types := classify_simplices env (universe_ptr m)\<rparr>;
          m = m\<lparr>edge_types := classify_edges env (universe_ptr m)\<rparr>;
          m = m\<lparr>N3_31 := (case simplex_types m of (s31, s22, s13) \<Rightarrow>
                  of_nat (length s31 + length s13))\<rparr>;
          m = m\<lparr>N3_22 := (case simplex_types m of (s31, s22, s13) \<Rightarrow> of_nat (length s22))\<rparr>;
          m = m\<lparr>N1_TL := of_nat (length (fst (edge_types m)))\<rparr>;
          m = (case make_23_move env (universe_ptr m) (simplex_types m) (attempted_moves m) of
                 (universe, attempted) \<Rightarrow>
                   m\<lparr>universe_ptr := universe, attempted_moves := attempted\<rparr>);
          m = m\<lparr>N3_22 := N3_22 m + 1\<rparr>;
          m = m\<lparr>N1_TL := N1_TL m + 1\<rparr>;
          m = m\<lparr>successful_moves := incr_0 (successful_moves m)\<rparr>;
          m = (case make_32_move env (universe_ptr m) (edge_types m) (attempted_moves m) of
                 (universe, attempted) \<Rightarrow>
                   m\<lparr>universe_ptr := universe, attempted_moves := attempted\<rparr>);
          m = m\<lparr>N3_22 := N3_22 m - 1\<rparr>;
          m = m\<lparr>N1_TL := N1_TL m - 1\<rparr>;
          m = m\<lparr>successful_moves := incr_1 (successful_moves m)\<rparr>;
          m = (case make_26_move env (universe_ptr m) (simplex_types m) (attempted_moves m) of
                 (universe, attempted) \<Rightarrow>
                   m\<lparr>universe_ptr := universe, attempted_moves := attempted\<rparr>);
          m = m\<lparr>N3_31 := N3_31 m + 4\<rparr>;
          m = m\<lparr>N1_TL := N1_TL m + 2\<rparr>;
          m = m\<lparr>successful_moves := incr_2 (successful_moves m)\<rparr>
      in m)"

text \<open>
  \<^verbatim>\<open>static_cast<move_type>(move_choice)\<close>, by the numbering of the enum. The values
  0, 1, 2 are all that \<^verbatim>\<open>generate_random_unsigned(0, 2)\<close> yields; a value above 4 names
  no enumerator and the model maps it to the last one.
\<close>

definition to_move_type :: "nat \<Rightarrow> move_type" where
  "to_move_type move_choice =
     (if move_choice = 0 then TWO_THREE
      else if move_choice = 1 then THREE_TWO
      else if move_choice = 2 then TWO_SIX
      else if move_choice = 3 then SIX_TWO
      else FOUR_FOUR)"

text \<open>
  The state after the first \<open>n\<close> iterations of the \<^verbatim>\<open>for\<close> loop over \<open>move_attempt\<close>;
  iteration \<open>n\<close> draws the move choice and the trial and calls \<^verbatim>\<open>attempt_move\<close>.
\<close>

fun move_attempts :: "'u collaborators \<Rightarrow> nat \<Rightarrow> 'u Metropolis \<Rightarrow> 'u Metropolis option" where
  "move_attempts env 0 m = Some m"
| "move_attempts env (Suc n) m =
     (case move_attempts env n m of
        None \<Rightarrow> None
      | Some m' \<Rightarrow>
          attempt_move env (to_move_type (generate_random_unsigned env n))
            (generate_probability env n) m')"

text \<open>
  \<^verbatim>\<open>operator()\<close>: seeding, then the loop with its bound
  \<^verbatim>\<open>total_simplices_this_pass = 10\<close>. The handle it returns is \<open>universe_ptr\<close> of the
  final state.
\<close>

definition total_simplices_this_pass :: nat where
  "total_simplices_this_pass = 10"

definition operator_call ::
  "'u collaborators \<Rightarrow> 'u \<Rightarrow> 'u Metropolis \<Rightarrow> 'u Metropolis option" where
  "operator_call env universe m =
     move_attempts env total_simplices_this_pass (seed env universe m)"

section \<open>Invariants of the move statistics\<close>

text \<open>
  \<open>attempted_ge_successful\<close>: no kind has more successful than attempted moves
  (unsigned comparison). \<open>attempted_at_most n\<close>: no attempted counter exceeds \<open>n\<close>.
\<close>

definition attempted_ge_successful :: "'u Metropolis \<Rightarrow> bool" where
  "attempted_ge_successful m =
     (get_0 (successful_moves m) \<le> get_0 (attempted_moves m)
      \<and> get_1 (successful_moves m) \<le> get_1 (attempted_moves m)
      \<and> get_2 (successful_moves m) \<le> get_2 (attempted_moves m)
      \<and> get_3 (successful_moves m) \<le> get_3 (attempted_moves m)
      \<and> get_4 (successful_moves m) \<le> get_4 (attempted_moves m))"

definition attempted_at_most :: "nat \<Rightarrow> 'u Metropolis \<Rightarrow> bool" where
  "attempted_at_most n m =
     (unat (get_0 (attempted_moves m)) \<le> n
      \<and> unat (get_1 (attempted_moves m)) \<le> n
      \<and> unat (get_2 (attempted_moves m)) \<le> n
      \<and> unat (get_3 (attempted_moves m)) \<le> n
      \<and> unat (get_4 (attempted_moves m)) \<le> n)"

section \<open>A concrete engine for evaluation\<close>

text \<open>
  Collaborators for running the engine on examples: 256 bits of precision, the action
  \<open>N3_31 + N3_22 - N1_TL\<close>, the constant \<open>1 / 2\<close> in place of the exponential, a
  classifier that finds four simplices of the kinds (3,1) and (1,3), five of the kind
  (2,2) and five timelike edges, a triangulation that is a plain counter of the flips
  made on it, and a random source that proposes the kinds (2,3), (3,2), (2,6) in turn,
  with trial 0 in even and 999999/1000000 in odd iterations.
\<close>

definition example_collaborators :: "nat collaborators" where
  "example_collaborators =
     \<lparr> PRECISION = 256,
       S3_bulk_action = (\<lambda>n1 n31 n22 a k l. of_nat (unat n31) + of_nat (unat n22) - of_nat (unat n1)),
       exp_RNDD = (\<lambda>x. 1 / 2),
       classify_simplices = (\<lambda>u. ([1, 2, 3], [4, 5, 7, 8, 9], [6])),
       classify_edges = (\<lambda>u. ([1, 2, 3, 4, 5], 7)),
       flip_23 = (\<lambda>u s. u + 1),
       flip_32 = (\<lambda>u e. u + 1),
       flip_26 = (\<lambda>u s. u + 1),
       generate_random_unsigned = (\<lambda>i. i mod 3),
       generate_probability = (\<lambda>i. if even i then 0 else 999999 / 1000000) \<rparr>"

definition example_engine :: "nat Metropolis" where
  "example_engine = Metropolis_ctor 0 1 1 1 1 1"

section \<open>Evaluating the concrete engine\<close>

lemma seed_example:
  "seed example_collaborators 0 example_engine =
     \<lparr>universe_ptr = 3, Alpha = 1, K = 1, Lambda = 1, N1_TL = 7, N3_31 = 8,
      N3_22 = 5, passes = 1, output_every_n_passes = 1,
      attempted_moves = (1, 1, 1, 0, 0), successful_moves = (1, 1, 1, 0, 0),
      simplex_types = ([1, 2, 3], [4, 5, 7, 8, 9], [6]),
      edge_types = ([1, 2, 3, 4, 5], 7)\<rparr>"
  by (simp add: seed_def example_collaborators_def example_engine_def Metropolis_ctor_def
      make_23_move_def make_32_move_def make_26_move_def Let_def)

text \<open>A kind that was never attempted has \<open>a1 = 0\<close>.\<close>

lemma CalculateA1_untried:
  assumes "TotalMoves m \<noteq> 0" and "get_move move (attempted_moves m) = 0"
  shows "CalculateA1 env m move = Some 0"
  using assms by (cases move) (simp_all add: CalculateA1_def round_down_def)

lemma TotalMoves_seed_example: "TotalMoves (seed example_collaborators 0 example_engine) = 3"
  by (simp add: seed_example TotalMoves_def)

lemma example_precision: "64 \<le> PRECISION example_collaborators"
  by (simp add: example_collaborators_def)

lemma example_choices:
  "\<forall>i < total_simplices_this_pass. generate_random_unsigned example_collaborators i \<le> 2"
proof -
  have "i mod 3 \<le> 2" for i :: nat by presburger
  then show ?thesis by (simp add: example_collaborators_def)
qed

section \<open>The combinatorial ratio\<close>

subsection \<open>Powers of two and the binary exponent\<close>

lemma two_powi_add: "(2 :: rat) powi (i + j) = 2 powi i * 2 powi j"
  by (rule power_int_add) simp

text \<open>A positive integer lies between the powers of two given by its bit length.\<close>

lemma bitlen_powi_bounds:
  assumes "0 < a"
  shows "2 powi (bitlen a - 1) \<le> (of_int a :: rat)" and "(of_int a :: rat) < 2 powi (bitlen a)"
proof -
  from bitlen_bounds[OF assms] have lo: "2 ^ nat (bitlen a - 1) \<le> a" and hi: "a < 2 ^ nat (bitlen a)"
    by simp_all
  from assms have pos: "1 \<le> bitlen a"
    using bitlen_eq_zero_iff[of a] bitlen_nonneg[of a] by linarith
  from lo have "(of_int (2 ^ nat (bitlen a - 1)) :: rat) \<le> of_int a"
    by (simp only: of_int_le_iff)
  with pos show "2 powi (bitlen a - 1) \<le> (of_int a :: rat)"
    by (simp add: power_int_def)
  from hi have "(of_int a :: rat) < of_int (2 ^ nat (bitlen a))"
    by (simp only: of_int_less_iff)
  with pos show "(of_int a :: rat) < 2 powi (bitlen a)"
    by (simp add: power_int_def)
qed

text \<open>\<open>ilog2\<close> is the binary exponent: \<open>2 powi ilog2 x \<le> x < 2 powi (ilog2 x + 1)\<close>.\<close>

lemma ilog2_bounds:
  assumes "0 < x"
  shows "2 powi (ilog2 x) \<le> x" and "x < 2 powi (ilog2 x + 1)"
proof -
  obtain a b where q: "quotient_of x = (a, b)" by (cases "quotient_of x")
  have b: "0 < b" using q by (rule quotient_of_denom_pos)
  have x: "x = of_int a / of_int b" using q by (rule quotient_of_div)
  have a: "0 < a" using assms b by (simp add: x zero_less_divide_iff)
  define d where "d = bitlen a - bitlen b"
  have rb: "0 < (of_int b :: rat)" using b by simp
  have "x * of_int b = of_int a" using b by (simp add: x)
  have "(of_int a :: rat) < 2 powi (bitlen a)" using a by (rule bitlen_powi_bounds)
  also have "\<dots> = 2 powi (d + 1) * 2 powi (bitlen b - 1)"
    by (simp add: d_def flip: two_powi_add)
  also have "\<dots> \<le> 2 powi (d + 1) * of_int b"
    using bitlen_powi_bounds(1)[OF b] by (intro mult_left_mono) simp_all
  finally have upper: "x < 2 powi (d + 1)"
    using rb by (simp add: x pos_divide_less_eq)
  have "2 powi (d - 1) * (of_int b :: rat) \<le> 2 powi (d - 1) * 2 powi (bitlen b)"
    using bitlen_powi_bounds(2)[OF b] by (intro mult_left_mono) simp_all
  also have "\<dots> = 2 powi (bitlen a - 1)"
    by (simp add: d_def flip: two_powi_add)
  also have "\<dots> \<le> of_int a" using a by (rule bitlen_powi_bounds)
  finally have lower: "2 powi (d - 1) \<le> x"
    using rb by (simp add: x pos_le_divide_eq)
  have e: "ilog2 x = (if 2 powi d \<le> x then d else d - 1)"
    by (simp add: ilog2_def q d_def Let_def)
  show "2 powi (ilog2 x) \<le> x" using lower by (simp add: e)
  show "x < 2 powi (ilog2 x + 1)" using upper by (simp add: e not_le)
qed

subsection \<open>Rounding down\<close>

lemma round_down_pos:
  assumes "0 < x"
  shows "round_down p x = of_int \<lfloor>x * 2 powi (int p - 1 - ilog2 x)\<rfloor> * 2 powi (ilog2 x + 1 - int p)"
  using assms by (simp add: round_down_def Let_def)

lemma scale_back: "(2 :: rat) powi (int p - 1 - e) * 2 powi (e + 1 - int p) = 1"
  by (simp flip: two_powi_add)

text \<open>
  Rounding down a positive number gives a number that is not larger, stays in the
  same binade, and is less than one unit in the last place below it.
\<close>

lemma round_down_le:
  assumes "0 < x"
  shows "round_down p x \<le> x"
proof -
  let ?s = "(2 :: rat) powi (int p - 1 - ilog2 x)" and ?c = "(2 :: rat) powi (ilog2 x + 1 - int p)"
  have "of_int \<lfloor>x * ?s\<rfloor> * ?c \<le> (x * ?s) * ?c"
    by (intro mult_right_mono) simp_all
  also have "\<dots> = x" by (simp add: mult.assoc scale_back)
  finally show ?thesis by (simp add: round_down_pos[OF assms])
qed

lemma round_down_gt:
  assumes "0 < x"
  shows "x < round_down p x + 2 powi (ilog2 x + 1 - int p)"
proof -
  let ?s = "(2 :: rat) powi (int p - 1 - ilog2 x)" and ?c = "(2 :: rat) powi (ilog2 x + 1 - int p)"
  have "x = (x * ?s) * ?c" by (simp add: mult.assoc scale_back)
  also have "\<dots> < (of_int \<lfloor>x * ?s\<rfloor> + 1) * ?c"
    using floor_correct[of "x * ?s"] by (intro mult_strict_right_mono) simp_all
  finally show ?thesis by (simp add: round_down_pos[OF assms] algebra_simps)
qed

lemma round_down_ge_binade:
  assumes "0 < x" and "1 \<le> p"
  shows "2 powi (ilog2 x) \<le> round_down p x"
proof -
  let ?s = "(2 :: rat) powi (int p - 1 - ilog2 x)" and ?c = "(2 :: rat) powi (ilog2 x + 1 - int p)"
  have "2 powi (ilog2 x) * ?s \<le> x * ?s"
    using ilog2_bounds(1)[OF assms(1)] by (intro mult_right_mono) simp_all
  moreover have "2 powi (ilog2 x) * ?s = of_int (2 ^ (p - 1))"
  proof -
    have "2 powi (ilog2 x) * ?s = 2 powi (int p - 1)"
      by (simp flip: two_powi_add)
    moreover have "(2 :: rat) powi (int p - 1) = 2 ^ (p - 1)"
    proof -
      have "int p - 1 = int (p - 1)" using assms(2) by simp
      then show ?thesis by (simp only: power_int_of_nat)
    qed
    ultimately show ?thesis by simp
  qed
  ultimately have "of_int (2 ^ (p - 1)) \<le> x * ?s" by simp
  then have "2 ^ (p - 1) \<le> \<lfloor>x * ?s\<rfloor>" by (simp only: le_floor_iff)
  then have "(of_int (2 ^ (p - 1)) :: rat) \<le> of_int \<lfloor>x * ?s\<rfloor>" by (simp only: of_int_le_iff)
  then have step: "of_int (2 ^ (p - 1)) * ?c \<le> of_int \<lfloor>x * ?s\<rfloor> * ?c"
    by (intro mult_right_mono) simp_all
  have eq: "of_int (2 ^ (p - 1)) * ?c = 2 powi (ilog2 x)"
  proof -
    have "int (p - 1) = int p - 1" using assms(2) by simp
    then have "(of_int (2 ^ (p - 1)) :: rat) = 2 powi (int p - 1)"
      by (simp flip: power_int_of_nat)
    then show ?thesis by (simp flip: two_powi_add)
  qed
  from step have "2 powi (ilog2 x) \<le> of_int \<lfloor>x * ?s\<rfloor> * ?c"
    by (simp only: eq)
  then show ?thesis by (simp only: round_down_pos[OF assms(1)])
qed

lemma round_down_relative:
  assumes "0 < x" and "1 \<le> p"
  shows "x < round_down p x * (1 + 2 powi (1 - int p))"
proof -
  have "2 powi (ilog2 x + 1 - int p) = 2 powi (ilog2 x) * (2 :: rat) powi (1 - int p)"
    using two_powi_add[of "ilog2 x" "1 - int p"] by (simp add: algebra_simps)
  also have "\<dots> \<le> round_down p x * 2 powi (1 - int p)"
    using round_down_ge_binade[OF assms] by (intro mult_right_mono) simp_all
  finally show ?thesis
    using round_down_gt[OF assms(1), of p] by (simp add: algebra_simps)
qed

text \<open>A natural number below \<open>2 ^ p\<close> has \<open>p\<close> bits: rounding leaves it as it is.\<close>

lemma round_down_of_nat:
  assumes "n < 2 ^ p"
  shows "round_down p (of_nat n) = of_nat n"
proof (cases "n = 0")
  case True
  then show ?thesis by (simp add: round_down_def)
next
  case False
  let ?x = "of_nat n :: rat"
  from False have x: "0 < ?x" by simp
  let ?e = "ilog2 ?x"
  have "2 powi ?e \<le> ?x" using x by (rule ilog2_bounds)
  also have "?x < 2 powi (int p)" using assms
    by (metis of_nat_less_iff of_nat_numeral of_nat_power power_int_of_nat)
  finally have "?e < int p"
    by (rule power_int_le_imp_less_exp[rotated]) simp_all
  then obtain j where j: "int p - 1 - ?e = int j"
    by (metis diff_ge_0_iff_ge nonneg_int_cases zle_diff1_eq)
  have "?x * 2 powi (int p - 1 - ?e) = of_int (int n * 2 ^ j)"
    by (simp add: j)
  then have fl: "of_int \<lfloor>?x * 2 powi (int p - 1 - ?e)\<rfloor> = ?x * (2 :: rat) powi (int p - 1 - ?e)"
    by (simp only: floor_of_int)
  have "round_down p ?x = of_int \<lfloor>?x * 2 powi (int p - 1 - ?e)\<rfloor> * 2 powi (?e + 1 - int p)"
    using x by (rule round_down_pos)
  also have "\<dots> = (?x * 2 powi (int p - 1 - ?e)) * 2 powi (?e + 1 - int p)"
    by (simp only: fl)
  also have "\<dots> = ?x"
    by (simp only: mult.assoc scale_back mult_1_right)
  finally show ?thesis .
qed

subsection \<open>The operands of the division\<close>

text \<open>
  A counter below \<open>2 ^ 31\<close> survives the narrowing to \<^verbatim>\<open>int\<close> and the widening to
  \<^verbatim>\<open>unsigned long\<close>.
\<close>

lemma narrow_widen:
  fixes w :: "64 word"
  assumes "unat w < 2 ^ 31"
  shows "(scast (ucast w :: 32 word) :: 64 word) = w"
proof -
  let ?v = "ucast w :: 32 word"
  have "unat ?v = take_bit 32 (unat w)" by (simp only: unsigned_ucast_eq) simp
  also have "\<dots> = unat w"
    using assms by (intro take_bit_nat_eq_self) simp
  finally have uv: "unat ?v = unat w" .
  have "uint ?v = int (unat ?v)" by simp
  with uv have ui: "uint ?v = int (unat w)" by simp
  have small: "int (unat w) < 2 ^ 31" using assms by (simp flip: of_nat_less_iff[where 'a = int])
  have "sint ?v = signed_take_bit 31 (uint ?v)" by (simp only: sint_uint) simp
  also have "\<dots> = int (unat w)"
  proof -
    have "- (2 ^ 31) \<le> (0 :: int)" by simp
    also have "0 \<le> int (unat w)" by simp
    finally show ?thesis
      unfolding ui using small by (intro signed_take_bit_int_eq_self)
  qed
  finally have "(scast ?v :: 64 word) = word_of_int (int (unat w))" by (simp only: scast_eq)
  then show ?thesis by simp
qed

subsection \<open>The quotient\<close>

text \<open>
  Rounding down to \<open>P \<ge> 53\<close> bits and then to the 53 bits of a double loses less
  than the fraction \<open>1 / 2 ^ 51\<close> of a non-negative number.
\<close>

lemma double_rounding_bounds:
  assumes "0 \<le> q" and "53 \<le> P"
  shows "round_down 53 (round_down P q) \<le> q"
    and "q * (1 - 1 / 2 ^ 51) \<le> round_down 53 (round_down P q)"
proof -
  let ?y = "round_down P q" and ?z = "round_down 53 (round_down P q)"
  let ?a = "1 / 2 ^ 52 :: rat"
  let ?b = "2 powi (1 - int P) :: rat"
  have both: "?z \<le> q \<and> q * (1 - 1 / 2 ^ 51) \<le> ?z"
  proof (cases "q = 0")
    case True
    then show ?thesis by (simp add: round_down_def)
  next
    case False
    with assms(1) have q: "0 < q" by simp
    from assms(2) have P: "1 \<le> P" by simp
    have "0 < (2 :: rat) powi (ilog2 q)" by simp
    also have "\<dots> \<le> ?y" using q P by (rule round_down_ge_binade)
    finally have y: "0 < ?y" .
    have "0 < (2 :: rat) powi (ilog2 ?y)" by simp
    also have "\<dots> \<le> ?z" using y by (rule round_down_ge_binade) simp
    finally have z: "0 < ?z" .
    have yq: "?y \<le> q" using q by (rule round_down_le)
    have zy: "?z \<le> ?y" using y by (rule round_down_le)
    have qy: "q < ?y * (1 + ?b)" using q P by (rule round_down_relative)
    have a52: "(2 :: rat) powi (- 52) = ?a"
      using power_int_minus_divide[of "2 :: rat" 52] by simp
    have "1 - int 53 = - 52" by simp
    with round_down_relative[OF y, of 53] a52 have yz: "?y < ?z * (1 + ?a)" by simp
    have "?b \<le> 2 powi (- 52)"
      using assms(2) by (intro power_int_increasing) simp_all
    with a52 have ba: "?b \<le> ?a" by simp
    have b0: "0 < ?b" by simp
    have "q < ?y * (1 + ?b)" by (rule qy)
    also have "\<dots> \<le> (?z * (1 + ?a)) * (1 + ?b)"
      using yz b0 by (intro mult_right_mono) simp_all
    also have "\<dots> \<le> (?z * (1 + ?a)) * (1 + ?a)"
      using ba z by (intro mult_left_mono) simp_all
    finally have "q < ?z * ((1 + ?a) * (1 + ?a))" by (simp only: mult.assoc)
    then have "q * (1 - 1 / 2 ^ 51) \<le> (?z * ((1 + ?a) * (1 + ?a))) * (1 - 1 / 2 ^ 51)"
      by (intro mult_right_mono) simp_all
    also have "\<dots> = ?z * ((1 + ?a) * (1 + ?a) * (1 - 1 / 2 ^ 51))"
      by (simp only: mult.assoc)
    also have "\<dots> \<le> ?z * 1"
      using z by (intro mult_left_mono) simp_all
    finally have "q * (1 - 1 / 2 ^ 51) \<le> ?z" by simp
    moreover from zy yq have "?z \<le> q" by simp
    ultimately show ?thesis by simp
  qed
  from both show "?z \<le> q" by simp
  from both show "q * (1 - 1 / 2 ^ 51) \<le> ?z" by simp
qed

text \<open>With at least 64 bits of precision \<open>r1\<close> and \<open>r2\<close> are the two counters.\<close>

lemma CalculateA1_operands_exact:
  assumes P: "64 \<le> PRECISION env" and total: "TotalMoves m \<noteq> 0"
    and small: "unat (get_move move (attempted_moves m)) < 2 ^ 31"
  shows "CalculateA1 env m move = Some (round_down 53 (round_down (PRECISION env)
     (of_nat (unat (get_move move (attempted_moves m))) / of_nat (unat (TotalMoves m)))))"
proof -
  let ?att = "get_move move (attempted_moves m)"
  have widen: "(scast (ucast ?att :: 32 word) :: 64 word) = ?att"
    using small by (rule narrow_widen)
  have "(2 :: nat) ^ 64 \<le> 2 ^ PRECISION env"
    using P by (intro power_increasing) simp_all
  with unsigned_less[of "TotalMoves m", where 'a = nat]
  have "unat (TotalMoves m) < 2 ^ PRECISION env" by simp
  then have r2: "round_down (PRECISION env) (of_nat (unat (TotalMoves m)))
      = of_nat (unat (TotalMoves m))"
    by (rule round_down_of_nat)
  have "(2 :: nat) ^ 31 \<le> 2 ^ PRECISION env"
    using P by (intro power_increasing) simp_all
  with small have "unat ?att < 2 ^ PRECISION env" by simp
  then have r1: "round_down (PRECISION env) (of_nat (unat ?att)) = of_nat (unat ?att)"
    by (rule round_down_of_nat)
  have this_move: "(case move of
        TWO_THREE \<Rightarrow> (ucast (get_0 (attempted_moves m)) :: 32 word)
      | THREE_TWO \<Rightarrow> ucast (get_1 (attempted_moves m))
      | TWO_SIX \<Rightarrow> ucast (get_2 (attempted_moves m))
      | SIX_TWO \<Rightarrow> ucast (get_3 (attempted_moves m))
      | FOUR_FOUR \<Rightarrow> ucast (get_4 (attempted_moves m))) = ucast ?att"
    by (cases move) simp_all
  show ?thesis
    unfolding CalculateA1_def Let_def this_move widen r1 r2 using total by simp
qed

text \<open>
  Together: \<^verbatim>\<open>CalculateA1\<close> returns the quotient of the two counters, rounded down
  twice, which is at most the quotient and misses it by less than the fraction
  \<open>1 / 2 ^ 51\<close>.
\<close>

lemma CalculateA1_rounded:
  assumes "64 \<le> PRECISION env" and "TotalMoves m \<noteq> 0"
    and "unat (get_move move (attempted_moves m)) < 2 ^ 31"
  shows "\<exists>a1. CalculateA1 env m move = Some a1
     \<and> a1 = round_down 53 (round_down (PRECISION env)
         (of_nat (unat (get_move move (attempted_moves m))) / of_nat (unat (TotalMoves m))))
     \<and> a1 \<le> of_nat (unat (get_move move (attempted_moves m))) / of_nat (unat (TotalMoves m))
     \<and> of_nat (unat (get_move move (attempted_moves m))) / of_nat (unat (TotalMoves m))
          * (1 - 1 / 2 ^ 51) \<le> a1"
proof -
  let ?q = "of_nat (unat (get_move move (attempted_moves m))) / of_nat (unat (TotalMoves m)) :: rat"
  have q: "0 \<le> ?q" by (intro divide_nonneg_nonneg of_nat_0_le_iff)
  from assms(1) have P: "53 \<le> PRECISION env" by simp
  from CalculateA1_operands_exact[OF assms] double_rounding_bounds[OF q P]
  show ?thesis by simp
qed

text \<open>
  C6, as the code has it: with \<open>PRECISION \<ge> 64\<close>, \<open>TotalMoves() \<noteq> 0\<close> and the
  attempted counter of the kind below \<open>2 ^ 31\<close>, \<^verbatim>\<open>CalculateA1\<close> returns the quotient
  \<open>q\<close> of the counter by \<^verbatim>\<open>TotalMoves()\<close>, rounded down to \<open>PRECISION\<close> bits by
  \<^verbatim>\<open>mpfr_div\<close> and then rounded down to a double by \<^verbatim>\<open>mpfr_get_d\<close>. The result
  \<open>a1\<close> satisfies \<open>q * (1 - 1 / 2 ^ 51) \<le> a1 \<le> q\<close>.
\<close>

theorem C6_combinatorial_ratio_rounded_down:
  assumes "64 \<le> PRECISION env" and "TotalMoves m \<noteq> 0"
    and "unat (get_move move (attempted_moves m)) < 2 ^ 31"
  shows "\<exists>a1. CalculateA1 env m move = Some a1
     \<and> a1 = round_down 53 (round_down (PRECISION env)
         (of_nat (unat (get_move move (attempted_moves m))) / of_nat (unat (TotalMoves m))))
     \<and> a1 \<le> of_nat (unat (get_move move (attempted_moves m))) / of_nat (unat (TotalMoves m))
     \<and> of_nat (unat (get_move move (attempted_moves m))) / of_nat (unat (TotalMoves m))
          * (1 - 1 / 2 ^ 51) \<le> a1"
  using assms by (rule CalculateA1_rounded)

theorem C6_witness_one_third:
  "\<exists>a1. CalculateA1 example_collaborators (seed example_collaborators 0 example_engine) TWO_THREE
       = Some a1
     \<and> a1 \<le> 1 / 3 \<and> (1 / 3) * (1 - 1 / 2 ^ 51) \<le> a1"
proof -
  have "64 \<le> PRECISION example_collaborators"
    by (rule example_precision)
  moreover have "TotalMoves (seed example_collaborators 0 example_engine) \<noteq> 0"
    by (simp add: TotalMoves_seed_example)
  moreover have "unat (get_move TWO_THREE
      (attempted_moves (seed example_collaborators 0 example_engine))) < 2 ^ 31"
    by (simp add: seed_example)
  ultimately show ?thesis
    using C6_combinatorial_ratio_rounded_down
      [of example_collaborators "seed example_collaborators 0 example_engine" TWO_THREE]
    by (simp add: TotalMoves_seed_example) (simp add: seed_example)
qed

text \<open>
  C6 as stated fails: on the seeded example engine, where one of three attempted moves
  is a (2,3) move, \<^verbatim>\<open>CalculateA1\<close> returns the double just below one third.
\<close>

lemma one_third_rounded:
  "round_down 53 (round_down 256 (1 / 3)) = 6004799503160661 / 18014398509481984"
  by code_simp

theorem C6_one_third_is_not_returned:
  "CalculateA1 example_collaborators (seed example_collaborators 0 example_engine) TWO_THREE
     = Some (6004799503160661 / 18014398509481984)
   \<and> CalculateA1 example_collaborators (seed example_collaborators 0 example_engine) TWO_THREE
     \<noteq> Some (1 / 3)"
proof -
  have "64 \<le> PRECISION example_collaborators"
    by (rule example_precision)
  moreover have "TotalMoves (seed example_collaborators 0 example_engine) \<noteq> 0"
    by (simp add: TotalMoves_seed_example)
  moreover have "unat (get_move TWO_THREE
      (attempted_moves (seed example_collaborators 0 example_engine))) < 2 ^ 31"
    by (simp add: seed_example)
  ultimately have "CalculateA1 example_collaborators
      (seed example_collaborators 0 example_engine) TWO_THREE
      = Some (round_down 53 (round_down (PRECISION example_collaborators)
          (of_nat (unat (get_move TWO_THREE
             (attempted_moves (seed example_collaborators 0 example_engine))))
           / of_nat (unat (TotalMoves (seed example_collaborators 0 example_engine))))))"
    by (rule CalculateA1_operands_exact)
  also have "PRECISION example_collaborators = 256"
    by (simp add: example_collaborators_def)
  also have "of_nat (unat (get_move TWO_THREE
        (attempted_moves (seed example_collaborators 0 example_engine))))
      / of_nat (unat (TotalMoves (seed example_collaborators 0 example_engine))) = (1 / 3 :: rat)"
    by (simp add: TotalMoves_seed_example) (simp add: seed_example)
  finally show ?thesis by (simp add: one_third_rounded)
qed

section \<open>The dynamical ratio\<close>

text \<open>
  C1, at the counts \<open>N1_TL = N3_31 = N3_22 = 10\<close>: the second call of
  \<^verbatim>\<open>S3_bulk_action\<close> made by \<^verbatim>\<open>CalculateA2\<close> gets \<open>(9, 10, 11)\<close> for a (2,3) move,
  \<open>(11, 10, 9)\<close> for a (3,2) move and \<open>(8, 10, 6)\<close> for a (6,2) move. Table 1 gives
  \<open>(11, 10, 11)\<close>, \<open>(9, 10, 9)\<close> and \<open>(8, 6, 10)\<close>.
\<close>

theorem C1_hypothetical_counts_differ_from_table:
  "snd (CalculateA2_traced example_collaborators
      (example_engine\<lparr>N1_TL := 10, N3_31 := 10, N3_22 := 10\<rparr>) TWO_THREE)
     = [(10, 10, 10), (9, 10, 11)]
   \<and> snd (CalculateA2_traced example_collaborators
      (example_engine\<lparr>N1_TL := 10, N3_31 := 10, N3_22 := 10\<rparr>) THREE_TWO)
     = [(10, 10, 10), (11, 10, 9)]
   \<and> snd (CalculateA2_traced example_collaborators
      (example_engine\<lparr>N1_TL := 10, N3_31 := 10, N3_22 := 10\<rparr>) SIX_TWO)
     = [(10, 10, 10), (8, 10, 6)]"
  by (simp add: CalculateA2_traced_def traced_action_def)

text \<open>
  C4, as the code has it: for a (4,4) move \<^verbatim>\<open>CalculateA2\<close> returns exactly 1 on every
  configuration, and it calls \<^verbatim>\<open>S3_bulk_action\<close> exactly once, on the current counts
  (the evaluation of \<open>currentS3Action\<close> ahead of the switch); no hypothetical
  configuration is evaluated.
\<close>

theorem C4_four_four_ratio_is_one:
  "CalculateA2 env m FOUR_FOUR = 1
   \<and> snd (CalculateA2_traced env m FOUR_FOUR) = [(N1_TL m, N3_31 m, N3_22 m)]"
  by (simp add: CalculateA2_def CalculateA2_traced_def traced_action_def)

text \<open>
  C4 as stated fails: on the freshly constructed example engine the (4,4) path does
  call the action evaluator.
\<close>

theorem C4_action_evaluator_is_called:
  "snd (CalculateA2_traced example_collaborators example_engine FOUR_FOUR) \<noteq> []"
  by (simp add: CalculateA2_traced_def traced_action_def)

section \<open>Accepted and rejected proposals\<close>

text \<open>The seeded example engine after a rejected (6,2) proposal.\<close>

lemma example_rejected_six_two:
  "attempt_move example_collaborators SIX_TWO (999999 / 1000000)
     (seed example_collaborators 0 example_engine)
   = Some ((seed example_collaborators 0 example_engine)\<lparr>attempted_moves := (1, 1, 1, 1, 0)\<rparr>)"
proof -
  have "CalculateA1 example_collaborators (seed example_collaborators 0 example_engine) SIX_TWO
      = Some 0"
    by (rule CalculateA1_untried) (simp_all add: seed_example TotalMoves_def)
  then show ?thesis
    by (simp add: attempt_move_def) (simp add: seed_example)
qed

lemma example_a1_six_two:
  "\<exists>a1. CalculateA1 example_collaborators
       ((seed example_collaborators 0 example_engine)\<lparr>attempted_moves := (1, 1, 1, 1, 0)\<rparr>) SIX_TWO
       = Some a1 \<and> 1 / 10 \<le> a1"
proof -
  let ?s = "(seed example_collaborators 0 example_engine)\<lparr>attempted_moves := (1, 1, 1, 1, 0)\<rparr>"
  have total: "TotalMoves ?s = 4" by (simp add: TotalMoves_def)
  have "\<exists>a1. CalculateA1 example_collaborators ?s SIX_TWO = Some a1
     \<and> a1 = round_down 53 (round_down (PRECISION example_collaborators)
         (of_nat (unat (get_move SIX_TWO (attempted_moves ?s))) / of_nat (unat (TotalMoves ?s))))
     \<and> a1 \<le> of_nat (unat (get_move SIX_TWO (attempted_moves ?s))) / of_nat (unat (TotalMoves ?s))
     \<and> of_nat (unat (get_move SIX_TWO (attempted_moves ?s))) / of_nat (unat (TotalMoves ?s))
          * (1 - 1 / 2 ^ 51) \<le> a1"
    by (rule CalculateA1_rounded) (simp_all add: example_precision total)
  then obtain a1 where a1: "CalculateA1 example_collaborators ?s SIX_TWO = Some a1"
      and lo: "of_nat (unat (get_move SIX_TWO (attempted_moves ?s))) / of_nat (unat (TotalMoves ?s))
          * (1 - 1 / 2 ^ 51) \<le> a1"
    by blast
  from lo have "(1 / 4 :: rat) * (1 - 1 / 2 ^ 51) \<le> a1" by (simp add: total)
  then have "1 / 10 \<le> a1" by simp
  with a1 show ?thesis by blast
qed

lemma example_a2_six_two:
  "CalculateA2 example_collaborators
     ((seed example_collaborators 0 example_engine)\<lparr>attempted_moves := (1, 1, 1, 1, 0)\<rparr>) SIX_TWO
     = 1 / 2"
  by (simp add: CalculateA2_def CalculateA2_traced_def traced_action_def A2_of_exponent_def
      seed_example) (simp add: example_collaborators_def)

text \<open>
  C2, at the seeded example engine with counts \<open>(7, 8, 5)\<close>: after one rejected (6,2)
  proposal a second one with trial \<open>1 / 100\<close> is accepted (\<open>a1\<close> is about a quarter
  and \<open>a2 = 1 / 2\<close>; a rejection would leave \<open>(1, 1, 1, 2, 0)\<close> attempted moves),
  and the counts afterwards are still \<open>(7, 8, 5)\<close>, not \<open>(5, 4, 5)\<close> as the row
  \<open>(-2, -4, 0)\<close> of Table 1 has it.
\<close>

theorem C2_accepted_six_two_keeps_counts:
  "map_option (\<lambda>m. (N1_TL m, N3_31 m, N3_22 m, attempted_moves m))
     (Option.bind
        (attempt_move example_collaborators SIX_TWO (999999 / 1000000)
           (seed example_collaborators 0 example_engine))
        (attempt_move example_collaborators SIX_TWO (1 / 100)))
   = Some (7, 8, 5, (1, 1, 1, 1, 0))"
proof -
  let ?s = "(seed example_collaborators 0 example_engine)\<lparr>attempted_moves := (1, 1, 1, 1, 0)\<rparr>"
  from example_a1_six_two obtain a1
    where a1: "CalculateA1 example_collaborators ?s SIX_TWO = Some a1" and "1 / 10 \<le> a1"
    by blast
  then have "attempt_move example_collaborators SIX_TWO (1 / 100) ?s = Some ?s"
    by (simp add: attempt_move_def example_a2_six_two)
  then show ?thesis
    by (simp add: example_rejected_six_two) (simp add: seed_example)
qed

text \<open>
  C7: when a (6,2) or (4,4) proposal is accepted, \<^verbatim>\<open>attempt_move\<close> returns the state it
  was given: the three counts, the successful counters and everything else are as
  before.
\<close>

theorem C7_accepted_six_two_four_four_change_nothing:
  assumes "CalculateA1 env m move = Some a1"
    and "trial \<le> a1 * CalculateA2 env m move"
    and "move = SIX_TWO \<or> move = FOUR_FOUR"
  shows "attempt_move env move trial m = Some m"
  using assms by (auto simp add: attempt_move_def)

text \<open>The seeded example engine after a rejected (4,4) proposal.\<close>

lemma example_a1_four_four:
  "\<exists>a1. CalculateA1 example_collaborators
       ((seed example_collaborators 0 example_engine)\<lparr>attempted_moves := (1, 1, 1, 0, 1)\<rparr>) FOUR_FOUR
       = Some a1 \<and> 1 / 10 \<le> a1"
proof -
  let ?s = "(seed example_collaborators 0 example_engine)\<lparr>attempted_moves := (1, 1, 1, 0, 1)\<rparr>"
  have total: "TotalMoves ?s = 4" by (simp add: TotalMoves_def)
  have "\<exists>a1. CalculateA1 example_collaborators ?s FOUR_FOUR = Some a1
     \<and> a1 = round_down 53 (round_down (PRECISION example_collaborators)
         (of_nat (unat (get_move FOUR_FOUR (attempted_moves ?s))) / of_nat (unat (TotalMoves ?s))))
     \<and> a1 \<le> of_nat (unat (get_move FOUR_FOUR (attempted_moves ?s))) / of_nat (unat (TotalMoves ?s))
     \<and> of_nat (unat (get_move FOUR_FOUR (attempted_moves ?s))) / of_nat (unat (TotalMoves ?s))
          * (1 - 1 / 2 ^ 51) \<le> a1"
    by (rule CalculateA1_rounded) (simp_all add: example_precision total)
  then obtain a1 where a1: "CalculateA1 example_collaborators ?s FOUR_FOUR = Some a1"
      and lo: "of_nat (unat (get_move FOUR_FOUR (attempted_moves ?s))) / of_nat (unat (TotalMoves ?s))
          * (1 - 1 / 2 ^ 51) \<le> a1"
    by blast
  from lo have "(1 / 4 :: rat) * (1 - 1 / 2 ^ 51) \<le> a1" by (simp add: total)
  then have "1 / 10 \<le> a1" by simp
  with a1 show ?thesis by blast
qed

theorem C7_witness_accepted_four_four:
  "attempt_move example_collaborators FOUR_FOUR (1 / 10)
     ((seed example_collaborators 0 example_engine)\<lparr>attempted_moves := (1, 1, 1, 0, 1)\<rparr>)
   = Some ((seed example_collaborators 0 example_engine)\<lparr>attempted_moves := (1, 1, 1, 0, 1)\<rparr>)"
proof -
  let ?s = "(seed example_collaborators 0 example_engine)\<lparr>attempted_moves := (1, 1, 1, 0, 1)\<rparr>"
  from example_a1_four_four obtain a1
    where a1: "CalculateA1 example_collaborators ?s FOUR_FOUR = Some a1" and le: "1 / 10 \<le> a1"
    by blast
  have "CalculateA2 example_collaborators ?s FOUR_FOUR = 1"
    by (simp add: CalculateA2_def CalculateA2_traced_def traced_action_def)
  with le have "1 / 10 \<le> a1 * CalculateA2 example_collaborators ?s FOUR_FOUR" by simp
  with a1 show ?thesis
    by (intro C7_accepted_six_two_four_four_change_nothing [of example_collaborators ?s FOUR_FOUR a1])
      simp_all
qed

text \<open>
  C8: a rejected proposal of any kind yields a state that differs from the old one in
  \<open>attempted_moves\<close> only: the counts, the successful counters and the triangulation
  are untouched (no executor ran), the attempted counter of the proposed kind is one
  higher and the other four are as before.
\<close>

theorem C8_rejected_proposal_increments_attempted_only:
  assumes "CalculateA1 env m move = Some a1"
    and "\<not> trial \<le> a1 * CalculateA2 env m move"
  shows "\<exists>m'. attempt_move env move trial m = Some m'
     \<and> N1_TL m' = N1_TL m \<and> N3_31 m' = N3_31 m \<and> N3_22 m' = N3_22 m
     \<and> successful_moves m' = successful_moves m
     \<and> universe_ptr m' = universe_ptr m
     \<and> m' = m\<lparr>attempted_moves := attempted_moves m'\<rparr>
     \<and> get_move move (attempted_moves m') = get_move move (attempted_moves m) + 1
     \<and> (\<forall>k. k \<noteq> move \<longrightarrow> get_move k (attempted_moves m') = get_move k (attempted_moves m))"
proof -
  obtain a b c d e where t: "attempted_moves m = (a, b, c, d, e)"
    by (cases "attempted_moves m" rule: prod_cases5)
  show ?thesis
  proof (cases move)
    case TWO_THREE
    have "k \<noteq> TWO_THREE \<Longrightarrow> get_move k (a + 1, b, c, d, e) = get_move k (a, b, c, d, e)" for k
      by (cases k) simp_all
    with assms t TWO_THREE show ?thesis by (simp add: attempt_move_def)
  next
    case THREE_TWO
    have "k \<noteq> THREE_TWO \<Longrightarrow> get_move k (a, b + 1, c, d, e) = get_move k (a, b, c, d, e)" for k
      by (cases k) simp_all
    with assms t THREE_TWO show ?thesis by (simp add: attempt_move_def)
  next
    case TWO_SIX
    have "k \<noteq> TWO_SIX \<Longrightarrow> get_move k (a, b, c + 1, d, e) = get_move k (a, b, c, d, e)" for k
      by (cases k) simp_all
    with assms t TWO_SIX show ?thesis by (simp add: attempt_move_def)
  next
    case SIX_TWO
    have "k \<noteq> SIX_TWO \<Longrightarrow> get_move k (a, b, c, d + 1, e) = get_move k (a, b, c, d, e)" for k
      by (cases k) simp_all
    with assms t SIX_TWO show ?thesis by (simp add: attempt_move_def)
  next
    case FOUR_FOUR
    have "k \<noteq> FOUR_FOUR \<Longrightarrow> get_move k (a, b, c, d, e + 1) = get_move k (a, b, c, d, e)" for k
      by (cases k) simp_all
    with assms t FOUR_FOUR show ?thesis by (simp add: attempt_move_def)
  qed
qed

text \<open>The seeded example engine and a (3,2) proposal with trial 0.999999.\<close>

lemma example_a1_three_two:
  "\<exists>a1. CalculateA1 example_collaborators (seed example_collaborators 0 example_engine) THREE_TWO
       = Some a1 \<and> a1 \<le> 1 / 3"
proof -
  let ?s = "seed example_collaborators 0 example_engine"
  have "\<exists>a1. CalculateA1 example_collaborators ?s THREE_TWO = Some a1
     \<and> a1 = round_down 53 (round_down (PRECISION example_collaborators)
         (of_nat (unat (get_move THREE_TWO (attempted_moves ?s))) / of_nat (unat (TotalMoves ?s))))
     \<and> a1 \<le> of_nat (unat (get_move THREE_TWO (attempted_moves ?s))) / of_nat (unat (TotalMoves ?s))
     \<and> of_nat (unat (get_move THREE_TWO (attempted_moves ?s))) / of_nat (unat (TotalMoves ?s))
          * (1 - 1 / 2 ^ 51) \<le> a1"
    by (rule CalculateA1_rounded)
      (simp add: example_precision, simp add: TotalMoves_seed_example, simp add: seed_example)
  then obtain a1 where a1: "CalculateA1 example_collaborators ?s THREE_TWO = Some a1"
      and hi: "a1 \<le> of_nat (unat (get_move THREE_TWO (attempted_moves ?s)))
          / of_nat (unat (TotalMoves ?s))"
    by blast
  from hi have "a1 \<le> 1 / 3" by (simp add: TotalMoves_seed_example) (simp add: seed_example)
  with a1 show ?thesis by blast
qed

lemma example_a2_three_two:
  "CalculateA2 example_collaborators (seed example_collaborators 0 example_engine) THREE_TWO = 1 / 2"
  by (simp add: CalculateA2_def CalculateA2_traced_def traced_action_def A2_of_exponent_def
      seed_example) (simp add: example_collaborators_def)

theorem C8_witness_rejected_three_two:
  "\<exists>m'. attempt_move example_collaborators THREE_TWO (999999 / 1000000)
       (seed example_collaborators 0 example_engine) = Some m'
     \<and> N1_TL m' = 7 \<and> N3_31 m' = 8 \<and> N3_22 m' = 5
     \<and> successful_moves m' = (1, 1, 1, 0, 0)
     \<and> universe_ptr m' = 3
     \<and> get_move THREE_TWO (attempted_moves m') = 2"
proof -
  let ?s = "seed example_collaborators 0 example_engine"
  from example_a1_three_two obtain a1
    where a1: "CalculateA1 example_collaborators ?s THREE_TWO = Some a1" and le: "a1 \<le> 1 / 3"
    by blast
  from le have "\<not> 999999 / 1000000 \<le> a1 * CalculateA2 example_collaborators ?s THREE_TWO"
    by (simp add: example_a2_three_two)
  from C8_rejected_proposal_increments_attempted_only [OF a1 this] show ?thesis
    by (simp add: seed_example) blast
qed

section \<open>The successful-move accessors\<close>

text \<open>
  C5, at the state the seeded example engine is in after a rejected (6,2) and a
  rejected (4,4) proposal: \<^verbatim>\<open>SuccessfulSixTwoMoves()\<close> and
  \<^verbatim>\<open>SuccessfulFourFourMoves()\<close> both return 1, the attempted counters, while the
  successful counters of the two kinds hold 0.
\<close>

theorem C5_successful_accessors_read_attempted:
  "map_option
     (\<lambda>m. (SuccessfulSixTwoMoves m, get_3 (successful_moves m),
           SuccessfulFourFourMoves m, get_4 (successful_moves m)))
     (Option.bind
        (attempt_move example_collaborators SIX_TWO (999999 / 1000000)
           (seed example_collaborators 0 example_engine))
        (attempt_move example_collaborators FOUR_FOUR (999999 / 1000000)))
   = Some (1, 0, 1, 0)"
proof -
  let ?s = "seed example_collaborators 0 example_engine"
  let ?s' = "?s\<lparr>attempted_moves := (1, 1, 1, 1, 0)\<rparr>"
  have first: "attempt_move example_collaborators SIX_TWO (999999 / 1000000) ?s = Some ?s'"
    by (rule example_rejected_six_two)
  have "CalculateA1 example_collaborators ?s' FOUR_FOUR = Some 0"
    by (rule CalculateA1_untried) (simp_all add: seed_example TotalMoves_def)
  then have "attempt_move example_collaborators FOUR_FOUR (999999 / 1000000) ?s'
      = Some (?s\<lparr>attempted_moves := (1, 1, 1, 1, 1)\<rparr>)"
    by (simp add: attempt_move_def)
  with first show ?thesis
    by (simp add: SuccessfulSixTwoMoves_def SuccessfulFourFourMoves_def seed_example)
qed

section \<open>Counters along a run\<close>

text \<open>Incrementing a 64-bit counter that is below its maximum does not wrap.\<close>

lemma unat_incr:
  fixes w :: "64 word"
  assumes "unat w \<le> n" and "n < 2 ^ 64 - 1"
  shows "unat (w + 1) = Suc (unat w)"
proof -
  have "unat w + unat (1 :: 64 word) < 2 ^ LENGTH(64)"
    using assms by simp
  then have "unat (w + 1) = unat w + unat (1 :: 64 word)"
    by (simp only: unat_add_lem)
  then show ?thesis by simp
qed

lemma unat_add_small:
  fixes x y :: "64 word"
  assumes "unat x + unat y < 2 ^ 64"
  shows "unat (x + y) = unat x + unat y"
  using assms unat_add_lem[of x y] by simp

text \<open>
  \<^verbatim>\<open>attempt_move\<close> returns whenever some move was attempted before, and it changes the
  two counter tuples in one of three ways: not at all (an accepted (6,2) or (4,4)
  proposal), one more attempted move (a rejection), or one more attempted and one more
  successful move (an executed move).
\<close>

lemma attempt_move_Some:
  assumes "TotalMoves m \<noteq> 0"
  shows "\<exists>m'. attempt_move env move trial m = Some m'"
  using assms
  by (cases move)
    (simp_all add: attempt_move_def CalculateA1_def Let_def make_23_move_def make_32_move_def
      make_26_move_def)

lemma attempt_move_counters:
  assumes "attempt_move env move trial m = Some m'"
  shows "(attempted_moves m' = attempted_moves m \<and> successful_moves m' = successful_moves m
            \<and> (move = SIX_TWO \<or> move = FOUR_FOUR))
       \<or> (attempted_moves m' = incr_move move (attempted_moves m)
            \<and> successful_moves m' = successful_moves m)
       \<or> (attempted_moves m' = incr_move move (attempted_moves m)
            \<and> successful_moves m' = incr_move move (successful_moves m))"
  using assms
  by (cases move)
    (auto simp add: attempt_move_def make_23_move_def make_32_move_def make_26_move_def
      split: option.splits if_splits)

text \<open>Each of the three ways keeps attempted above successful, as long as nothing wraps.\<close>

lemma counters_step:
  fixes att suc :: move_tuple
  assumes ge: "get_0 suc \<le> get_0 att" "get_1 suc \<le> get_1 att" "get_2 suc \<le> get_2 att"
      "get_3 suc \<le> get_3 att" "get_4 suc \<le> get_4 att"
    and le: "unat (get_0 att) \<le> n" "unat (get_1 att) \<le> n" "unat (get_2 att) \<le> n"
      "unat (get_3 att) \<le> n" "unat (get_4 att) \<le> n"
    and n: "n < 2 ^ 64 - 1"
    and step: "(att' = att \<and> suc' = suc) \<or> (att' = incr_move move att \<and> suc' = suc)
       \<or> (att' = incr_move move att \<and> suc' = incr_move move suc)"
  shows "get_0 suc' \<le> get_0 att' \<and> get_1 suc' \<le> get_1 att' \<and> get_2 suc' \<le> get_2 att'
      \<and> get_3 suc' \<le> get_3 att' \<and> get_4 suc' \<le> get_4 att'
      \<and> unat (get_0 att') \<le> Suc n \<and> unat (get_1 att') \<le> Suc n \<and> unat (get_2 att') \<le> Suc n
      \<and> unat (get_3 att') \<le> Suc n \<and> unat (get_4 att') \<le> Suc n
      \<and> unat (get_0 att) \<le> unat (get_0 att')"
proof -
  obtain a b c d e where att: "att = (a, b, c, d, e)" by (cases att rule: prod_cases5)
  obtain a' b' c' d' e' where suc: "suc = (a', b', c', d', e')" by (cases suc rule: prod_cases5)
  have up: "unat (w + 1) = Suc (unat w)" if "unat w \<le> n" for w :: "64 word"
    using that n by (rule unat_incr)
  have up': "unat (w + 1) = Suc (unat w)" if "w \<le> v" "unat v \<le> n" for w v :: "64 word"
    using that up[of w] by (simp add: word_le_nat_alt)
  show ?thesis
    using ge le step unfolding att suc
    by (cases move) (auto simp add: word_le_nat_alt up up')
qed

lemma attempt_move_invariant:
  assumes "attempt_move env move trial m = Some m'"
    and "attempted_ge_successful m" and "attempted_at_most n m" and "n < 2 ^ 64 - 1"
  shows "attempted_ge_successful m' \<and> attempted_at_most (Suc n) m'
     \<and> unat (get_0 (attempted_moves m)) \<le> unat (get_0 (attempted_moves m'))"
proof -
  from attempt_move_counters[OF assms(1)]
  have step: "(attempted_moves m' = attempted_moves m \<and> successful_moves m' = successful_moves m)
       \<or> (attempted_moves m' = incr_move move (attempted_moves m)
            \<and> successful_moves m' = successful_moves m)
       \<or> (attempted_moves m' = incr_move move (attempted_moves m)
            \<and> successful_moves m' = incr_move move (successful_moves m))"
    by blast
  from assms(2,3) show ?thesis
    unfolding attempted_ge_successful_def attempted_at_most_def
    using counters_step[OF _ _ _ _ _ _ _ _ _ _ assms(4) step] by blast
qed

text \<open>With small counters the 64-bit sum \<^verbatim>\<open>TotalMoves()\<close> is the sum of the counters.\<close>

lemma TotalMoves_unat:
  assumes "attempted_at_most n m" and "n < 2 ^ 60"
  shows "unat (TotalMoves m) = unat (get_0 (attempted_moves m)) + unat (get_1 (attempted_moves m))
     + unat (get_2 (attempted_moves m)) + unat (get_3 (attempted_moves m))
     + unat (get_4 (attempted_moves m))"
proof -
  obtain a b c d e where att: "attempted_moves m = (a, b, c, d, e)"
    by (cases "attempted_moves m" rule: prod_cases5)
  from assms have le: "unat a < 2 ^ 60" "unat b < 2 ^ 60" "unat c < 2 ^ 60" "unat d < 2 ^ 60"
      "unat e < 2 ^ 60"
    by (simp_all add: attempted_at_most_def att)
  have ab: "unat (a + b) = unat a + unat b"
    using le by (intro unat_add_small) simp
  have abc: "unat (a + b + c) = unat (a + b) + unat c"
    using le ab by (intro unat_add_small) simp
  have abcd: "unat (a + b + c + d) = unat (a + b + c) + unat d"
    using le ab abc by (intro unat_add_small) simp
  have "unat (a + b + c + d + e) = unat (a + b + c + d) + unat e"
    using le ab abc abcd by (intro unat_add_small) simp
  with ab abc abcd
  have "unat (a + b + c + d + e) = unat a + unat b + unat c + unat d + unat e"
    by simp
  then show ?thesis by (simp add: TotalMoves_def att)
qed

lemma TotalMoves_nonzero:
  assumes "attempted_at_most n m" and "n < 2 ^ 60" and "get_0 (attempted_moves m) \<noteq> 0"
  shows "TotalMoves m \<noteq> 0"
proof
  assume "TotalMoves m = 0"
  then have "unat (TotalMoves m) = 0" by simp
  with TotalMoves_unat[OF assms(1,2)] have "unat (get_0 (attempted_moves m)) = 0" by simp
  then have "get_0 (attempted_moves m) = 0" by (simp add: unat_eq_0)
  with assms(3) show False by simp
qed

text \<open>The loop: every iteration returns, and the invariant travels along.\<close>

lemma move_attempts_invariant:
  assumes "attempted_ge_successful m" and "attempted_at_most k m"
    and "get_0 (attempted_moves m) \<noteq> 0" and "k + n < 2 ^ 60"
  shows "\<exists>m'. move_attempts env n m = Some m' \<and> attempted_ge_successful m'
     \<and> attempted_at_most (k + n) m' \<and> get_0 (attempted_moves m') \<noteq> 0"
  using assms(4)
proof (induction n)
  case 0
  with assms show ?case by simp
next
  case (Suc n)
  then obtain m1 where m1: "move_attempts env n m = Some m1" "attempted_ge_successful m1"
      "attempted_at_most (k + n) m1" "get_0 (attempted_moves m1) \<noteq> 0"
    by auto
  from Suc.prems have small: "k + n < 2 ^ 60" by simp
  have "TotalMoves m1 \<noteq> 0"
    using m1(3) small m1(4) by (rule TotalMoves_nonzero)
  then obtain m2 where m2: "attempt_move env (to_move_type (generate_random_unsigned env n))
      (generate_probability env n) m1 = Some m2"
    using attempt_move_Some by blast
  have "k + n < (2 :: nat) ^ 64 - 1" using small by simp
  from attempt_move_invariant[OF m2 m1(2,3) this]
  have inv: "attempted_ge_successful m2" "attempted_at_most (Suc (k + n)) m2"
      "unat (get_0 (attempted_moves m1)) \<le> unat (get_0 (attempted_moves m2))"
    by simp_all
  from m1(4) have "unat (get_0 (attempted_moves m1)) \<noteq> 0" by (simp add: unat_eq_0)
  with inv(3) have "get_0 (attempted_moves m2) \<noteq> 0" by auto
  with m1(1) m2 inv(1,2) show ?case by simp
qed

text \<open>Seeding adds one attempted and one successful move of the kinds (2,3), (3,2), (2,6).\<close>

lemma seed_counters:
  "attempted_moves (seed env universe m) = incr_2 (incr_1 (incr_0 (attempted_moves m)))"
  "successful_moves (seed env universe m) = incr_2 (incr_1 (incr_0 (successful_moves m)))"
  by (simp_all add: seed_def Let_def make_23_move_def make_32_move_def make_26_move_def)

lemma seed_ctor_counters:
  "attempted_moves (seed env universe (Metropolis_ctor u a k l p c)) = (1, 1, 1, 0, 0)"
  "successful_moves (seed env universe (Metropolis_ctor u a k l p c)) = (1, 1, 1, 0, 0)"
  by (simp_all add: seed_counters Metropolis_ctor_def)

text \<open>
  C9: on an engine run from its construction, \<open>attempted[k] \<ge> successful[k]\<close> holds for
  all five kinds after construction, after seeding, and after each of the
  \<^verbatim>\<open>attempt_move\<close> calls of the loop, each of which returns. The executors are those of
  the spec: one increment of the attempted counter per invocation.
\<close>

theorem C9_attempted_ge_successful_throughout_run:
  "attempted_ge_successful (Metropolis_ctor u a k l p c)
   \<and> attempted_ge_successful (seed env universe (Metropolis_ctor u a k l p c))
   \<and> (\<forall>n \<le> total_simplices_this_pass.
        \<exists>m'. move_attempts env n (seed env universe (Metropolis_ctor u a k l p c)) = Some m'
          \<and> attempted_ge_successful m')"
proof -
  let ?s = "seed env universe (Metropolis_ctor u a k l p c)"
  have s: "attempted_ge_successful ?s" "attempted_at_most 1 ?s" "get_0 (attempted_moves ?s) \<noteq> 0"
    by (simp_all add: attempted_ge_successful_def attempted_at_most_def seed_ctor_counters)
  have "\<exists>m'. move_attempts env n ?s = Some m' \<and> attempted_ge_successful m'"
    if "n \<le> total_simplices_this_pass" for n
  proof -
    from that have "1 + n < (2 :: nat) ^ 60" by (simp add: total_simplices_this_pass_def)
    from move_attempts_invariant[OF s this] show ?thesis by blast
  qed
  moreover have "attempted_ge_successful (Metropolis_ctor u a k l p c)"
    by (simp add: attempted_ge_successful_def Metropolis_ctor_def)
  ultimately show ?thesis using s(1) by blast
qed

theorem C9_witness_example_run:
  "(10 :: nat) \<le> total_simplices_this_pass
   \<and> (\<exists>m'. move_attempts example_collaborators 10 (seed example_collaborators 0 example_engine)
         = Some m' \<and> attempted_ge_successful m')"
proof -
  have le: "(10 :: nat) \<le> total_simplices_this_pass"
    by (simp add: total_simplices_this_pass_def)
  from C9_attempted_ge_successful_throughout_run [of 0 1 1 1 1 1 example_collaborators 0]
  have "\<forall>n \<le> total_simplices_this_pass.
      \<exists>m'. move_attempts example_collaborators n (seed example_collaborators 0 example_engine)
        = Some m' \<and> attempted_ge_successful m'"
    by (simp add: example_engine_def)
  with le show ?thesis by blast
qed

section \<open>Kinds that a run proposes\<close>

lemma to_move_type_upto_2:
  assumes "move_choice \<le> 2"
  shows "to_move_type move_choice = TWO_THREE \<or> to_move_type move_choice = THREE_TWO
     \<or> to_move_type move_choice = TWO_SIX"
  using assms by (auto simp add: to_move_type_def)

lemma attempt_move_other_kinds:
  assumes "attempt_move env move trial m = Some m'"
    and "move = TWO_THREE \<or> move = THREE_TWO \<or> move = TWO_SIX"
  shows "get_3 (attempted_moves m') = get_3 (attempted_moves m)
     \<and> get_4 (attempted_moves m') = get_4 (attempted_moves m)
     \<and> get_3 (successful_moves m') = get_3 (successful_moves m)
     \<and> get_4 (successful_moves m') = get_4 (successful_moves m)"
proof -
  obtain a b c d e where att: "attempted_moves m = (a, b, c, d, e)"
    by (cases "attempted_moves m" rule: prod_cases5)
  obtain a' b' c' d' e' where suc: "successful_moves m = (a', b', c', d', e')"
    by (cases "successful_moves m" rule: prod_cases5)
  from attempt_move_counters[OF assms(1)] assms(2) show ?thesis
    by (auto simp add: att suc)
qed

lemma move_attempts_other_kinds:
  assumes "\<forall>i<n. generate_random_unsigned env i \<le> 2"
    and "move_attempts env n m = Some m'"
  shows "get_3 (attempted_moves m') = get_3 (attempted_moves m)
     \<and> get_4 (attempted_moves m') = get_4 (attempted_moves m)
     \<and> get_3 (successful_moves m') = get_3 (successful_moves m)
     \<and> get_4 (successful_moves m') = get_4 (successful_moves m)"
  using assms
proof (induction n arbitrary: m')
  case 0
  then show ?case by simp
next
  case (Suc n)
  from Suc.prems(2) obtain m1 where m1: "move_attempts env n m = Some m1"
      and m': "attempt_move env (to_move_type (generate_random_unsigned env n))
        (generate_probability env n) m1 = Some m'"
    by (auto split: option.splits)
  from Suc.prems(1) have "generate_random_unsigned env n \<le> 2" by simp
  from attempt_move_other_kinds[OF m' to_move_type_upto_2[OF this]]
    Suc.IH[OF _ m1] Suc.prems(1)
  show ?case by simp
qed

text \<open>
  C10: when \<^verbatim>\<open>generate_random_unsigned(0, 2)\<close> keeps to its range, every proposal of
  the main loop is a (2,3), (3,2) or (2,6) move, and on an engine run from its
  construction the attempted and successful counters of (6,2) and (4,4) are 0 after
  seeding, after every iteration of the loop, and in the state \<^verbatim>\<open>operator()\<close> ends in.
\<close>

theorem C10_six_two_four_four_never_proposed:
  assumes "\<forall>i < total_simplices_this_pass. generate_random_unsigned env i \<le> 2"
  shows "(\<forall>i < total_simplices_this_pass.
            to_move_type (generate_random_unsigned env i) \<in> {TWO_THREE, THREE_TWO, TWO_SIX})
     \<and> (\<forall>n \<le> total_simplices_this_pass.
          \<exists>m'. move_attempts env n (seed env universe (Metropolis_ctor u a k l p c)) = Some m'
            \<and> get_move SIX_TWO (attempted_moves m') = 0
            \<and> get_move SIX_TWO (successful_moves m') = 0
            \<and> get_move FOUR_FOUR (attempted_moves m') = 0
            \<and> get_move FOUR_FOUR (successful_moves m') = 0)
     \<and> (\<exists>m'. operator_call env universe (Metropolis_ctor u a k l p c) = Some m'
            \<and> get_move SIX_TWO (attempted_moves m') = 0
            \<and> get_move SIX_TWO (successful_moves m') = 0
            \<and> get_move FOUR_FOUR (attempted_moves m') = 0
            \<and> get_move FOUR_FOUR (successful_moves m') = 0)"
proof -
  let ?s = "seed env universe (Metropolis_ctor u a k l p c)"
  have s: "attempted_ge_successful ?s" "attempted_at_most 1 ?s" "get_0 (attempted_moves ?s) \<noteq> 0"
    by (simp_all add: attempted_ge_successful_def attempted_at_most_def seed_ctor_counters)
  have proposals: "to_move_type (generate_random_unsigned env i)
      \<in> {TWO_THREE, THREE_TWO, TWO_SIX}" if "i < total_simplices_this_pass" for i
    using to_move_type_upto_2[of "generate_random_unsigned env i"] assms that by auto
  have run: "\<exists>m'. move_attempts env n ?s = Some m'
      \<and> get_move SIX_TWO (attempted_moves m') = 0
      \<and> get_move SIX_TWO (successful_moves m') = 0
      \<and> get_move FOUR_FOUR (attempted_moves m') = 0
      \<and> get_move FOUR_FOUR (successful_moves m') = 0"
    if n: "n \<le> total_simplices_this_pass" for n
  proof -
    from n have "1 + n < (2 :: nat) ^ 60" by (simp add: total_simplices_this_pass_def)
    from move_attempts_invariant[OF s this]
    obtain m' where m': "move_attempts env n ?s = Some m'" by blast
    from assms n have "\<forall>i<n. generate_random_unsigned env i \<le> 2" by simp
    from move_attempts_other_kinds[OF this m'] m' show ?thesis
      by (simp add: seed_ctor_counters)
  qed
  from run[of total_simplices_this_pass] have "\<exists>m'.
      operator_call env universe (Metropolis_ctor u a k l p c) = Some m'
      \<and> get_move SIX_TWO (attempted_moves m') = 0
      \<and> get_move SIX_TWO (successful_moves m') = 0
      \<and> get_move FOUR_FOUR (attempted_moves m') = 0
      \<and> get_move FOUR_FOUR (successful_moves m') = 0"
    by (simp add: operator_call_def)
  with proposals run show ?thesis by blast
qed

theorem C10_witness_example_run:
  "\<exists>m'. operator_call example_collaborators 0 example_engine = Some m'
      \<and> get_move SIX_TWO (attempted_moves m') = 0
      \<and> get_move SIX_TWO (successful_moves m') = 0
      \<and> get_move FOUR_FOUR (attempted_moves m') = 0
      \<and> get_move FOUR_FOUR (successful_moves m') = 0"
  using C10_six_two_four_four_never_proposed [OF example_choices, of 0 0 1 1 1 1 1]
  unfolding example_engine_def by blast

section \<open>The number of passes\<close>

text \<open>Nothing in the engine reads \<open>passes\<close> or \<open>output_every_n_passes\<close>.\<close>

lemma CalculateA1_passes:
  "CalculateA1 env (m\<lparr>passes := p, output_every_n_passes := c\<rparr>) move = CalculateA1 env m move"
  by (cases move) (simp_all add: CalculateA1_def TotalMoves_def)

lemma CalculateA2_passes:
  "CalculateA2 env (m\<lparr>passes := p, output_every_n_passes := c\<rparr>) move = CalculateA2 env m move"
  by (cases move) (simp_all add: CalculateA2_def CalculateA2_traced_def traced_action_def)

lemma attempt_move_passes:
  "attempt_move env move trial (m\<lparr>passes := p, output_every_n_passes := c\<rparr>)
     = map_option (\<lambda>m. m\<lparr>passes := p, output_every_n_passes := c\<rparr>) (attempt_move env move trial m)"
  by (cases move)
    (simp_all add: attempt_move_def CalculateA1_passes CalculateA2_passes Let_def
      make_23_move_def make_32_move_def make_26_move_def split: option.splits)

lemma move_attempts_passes:
  "move_attempts env n (m\<lparr>passes := p, output_every_n_passes := c\<rparr>)
     = map_option (\<lambda>m. m\<lparr>passes := p, output_every_n_passes := c\<rparr>) (move_attempts env n m)"
  by (induction n) (simp_all add: attempt_move_passes split: option.splits)

lemma seed_passes:
  "seed env universe (m\<lparr>passes := p, output_every_n_passes := c\<rparr>)
     = (seed env universe m)\<lparr>passes := p, output_every_n_passes := c\<rparr>"
  by (simp add: seed_def Let_def make_23_move_def make_32_move_def make_26_move_def)

lemma operator_call_passes:
  "operator_call env universe (Metropolis_ctor u a k l p c)
     = map_option (\<lambda>m. m\<lparr>passes := p, output_every_n_passes := c\<rparr>)
         (operator_call env universe (Metropolis_ctor u a k l p' c'))"
proof -
  have "Metropolis_ctor u a k l p c
      = (Metropolis_ctor u a k l p' c')\<lparr>passes := p, output_every_n_passes := c\<rparr>"
    by (simp add: Metropolis_ctor_def)
  then show ?thesis
    by (simp only: operator_call_def seed_passes move_attempts_passes)
qed

text \<open>A proposal of one of the three seeded kinds adds exactly one attempted move.\<close>

lemma TotalMoves_incr_move:
  "attempted_moves m' = incr_move move (attempted_moves m) \<Longrightarrow> TotalMoves m' = TotalMoves m + 1"
  by (cases "attempted_moves m" rule: prod_cases5; cases move) (simp_all add: TotalMoves_def)

lemma attempt_move_total:
  assumes "attempt_move env move trial m = Some m'"
    and "move = TWO_THREE \<or> move = THREE_TWO \<or> move = TWO_SIX"
  shows "TotalMoves m' = TotalMoves m + 1"
  using attempt_move_counters[OF assms(1)] assms(2) by (auto intro: TotalMoves_incr_move)

lemma move_attempts_total:
  assumes "\<forall>i<n. generate_random_unsigned env i \<le> 2"
    and "move_attempts env n m = Some m'"
  shows "TotalMoves m' = TotalMoves m + of_nat n"
  using assms
proof (induction n arbitrary: m')
  case 0
  then show ?case by simp
next
  case (Suc n)
  from Suc.prems(2) obtain m1 where m1: "move_attempts env n m = Some m1"
      and m': "attempt_move env (to_move_type (generate_random_unsigned env n))
        (generate_probability env n) m1 = Some m'"
    by (auto split: option.splits)
  from Suc.prems(1) have "generate_random_unsigned env n \<le> 2" by simp
  from attempt_move_total[OF m' to_move_type_upto_2[OF this]]
    Suc.IH[OF _ m1] Suc.prems(1)
  show ?case by simp
qed

lemma operator_call_total:
  assumes "\<forall>i < total_simplices_this_pass. generate_random_unsigned env i \<le> 2"
  shows "map_option TotalMoves (operator_call env universe (Metropolis_ctor u a k l p c)) = Some 13"
proof -
  let ?s = "seed env universe (Metropolis_ctor u a k l p c)"
  have s: "attempted_ge_successful ?s" "attempted_at_most 1 ?s" "get_0 (attempted_moves ?s) \<noteq> 0"
    by (simp_all add: attempted_ge_successful_def attempted_at_most_def seed_ctor_counters)
  have "1 + total_simplices_this_pass < (2 :: nat) ^ 60"
    by (simp add: total_simplices_this_pass_def)
  from move_attempts_invariant[OF s this]
  obtain m' where m': "move_attempts env total_simplices_this_pass ?s = Some m'" by blast
  from move_attempts_total[OF assms m'] have "TotalMoves m' = 13"
    by (simp add: TotalMoves_def seed_ctor_counters total_simplices_this_pass_def)
  with m' show ?thesis by (simp add: operator_call_def)
qed

text \<open>
  C3, at the example engine constructed with \<open>passes = 3\<close>: \<^verbatim>\<open>operator()\<close> ends with
  13 attempted moves, three from seeding and ten from the one loop it runs, where three
  passes of ten attempts would give 33; the run with \<open>passes = 1\<close> ends with the same
  13, and its final state becomes that of the first by writing \<open>passes = 3\<close> and the
  common \<open>output_every_n_passes = 1\<close> into it.
\<close>

theorem C3_three_passes_run_ten_attempts:
  "map_option TotalMoves (operator_call example_collaborators 0 (Metropolis_ctor 0 1 1 1 3 1))
     = Some 13
   \<and> map_option TotalMoves (operator_call example_collaborators 0 (Metropolis_ctor 0 1 1 1 1 1))
     = Some 13
   \<and> operator_call example_collaborators 0 (Metropolis_ctor 0 1 1 1 3 1)
     = map_option (\<lambda>m. m\<lparr>passes := 3, output_every_n_passes := 1\<rparr>)
         (operator_call example_collaborators 0 (Metropolis_ctor 0 1 1 1 1 1))"
proof (intro conjI)
  show "map_option TotalMoves
      (operator_call example_collaborators 0 (Metropolis_ctor 0 1 1 1 3 1)) = Some 13"
    using example_choices by (rule operator_call_total)
  show "map_option TotalMoves
      (operator_call example_collaborators 0 (Metropolis_ctor 0 1 1 1 1 1)) = Some 13"
    using example_choices by (rule operator_call_total)
  show "operator_call example_collaborators 0 (Metropolis_ctor 0 1 1 1 3 1)
      = map_option (\<lambda>m. m\<lparr>passes := 3, output_every_n_passes := 1\<rparr>)
          (operator_call example_collaborators 0 (Metropolis_ctor 0 1 1 1 1 1))"
    by (rule operator_call_passes)
qed

end
